theory Spec2Isabelle
  imports Complex_Main
begin

section \<open>The exchange-rate worker (src/core/exchange/exchange-pixie.js)\<close>

subsection \<open>Data\<close>

text \<open>
  A hint pair is \<open>{ fromCurrency, toCurrency }\<close>; a plugin answers with
  \<open>{ fromCurrency, toCurrency, rate }\<close> objects; the worker dispatches those tagged
  with \<open>source\<close> and \<open>timestamp\<close>. JavaScript numbers are modelled as reals.
\<close>

record hint_pair =
  hintFrom :: string
  hintTo :: string

record rate_pair =
  fromCurrency :: string
  toCurrency :: string
  rate :: real

record exchange_pair = rate_pair +
  source :: string
  timestamp :: real

datatype action = EXCHANGE_PAIRS_FETCHED "exchange_pair list"

text \<open>
  What a call \<open>plugin.fetchRates(hintPairs)\<close> can do: raise synchronously, hand back a
  promise that rejects, or hand back a list of pairs (directly or through a promise that
  fulfils).
\<close>

datatype fetch_outcome = Throws | Rejects | Returns "rate_pair list"

type_synonym rate_plugin = "hint_pair list \<Rightarrow> fetch_outcome"

text \<open>The slice \<open>props.state.plugins\<close>: the \<open>locked\<close> flag and the \<open>rate\<close> table
  (an object; its keys in insertion order).\<close>

record plugins_state =
  locked :: bool
  ratePlugins :: "(string \<times> rate_plugin) list"

text \<open>A settled promise: fulfilled with a value, or rejected.\<close>

datatype 'a promise = Fulfilled 'a | Rejected

subsection \<open>doFetch\<close>

definition hintPairs :: "hint_pair list" where
  "hintPairs =
    [\<lparr>hintFrom = ''BTC'', hintTo = ''iso:EUR''\<rparr>,
     \<lparr>hintFrom = ''BTC'', hintTo = ''iso:USD''\<rparr>,
     \<lparr>hintFrom = ''ETH'', hintTo = ''iso:EUR''\<rparr>,
     \<lparr>hintFrom = ''ETH'', hintTo = ''iso:USD''\<rparr>]"

text \<open>
  The body mapped over \<open>pluginNames\<close>:
  \<^verbatim>\<open>async pluginName => {
    const plugin = input.props.state.plugins.rate[pluginName]
    try { return plugin.fetchRates(hintPairs) } catch (e) { return [] }
  }\<close>
  The \<^verbatim>\<open>try\<close> block returns the call's value without awaiting it. A synchronous
  exception (also the one of a missing plugin) is caught and replaced by the empty list;
  a returned promise is adopted by the async function's own promise after the
  \<^verbatim>\<open>try\<close> block has been left, so its rejection is not caught.
\<close>

definition fetchPlugin :: "(string \<times> rate_plugin) list \<Rightarrow> string \<Rightarrow> rate_pair list promise" where
  "fetchPlugin table pluginName =
    (case map_of table pluginName of
      None \<Rightarrow> Fulfilled []
    | Some plugin \<Rightarrow>
        (case plugin hintPairs of
          Throws \<Rightarrow> Fulfilled []
        | Rejects \<Rightarrow> Rejected
        | Returns ps \<Rightarrow> Fulfilled ps))"

text \<open>\<^verbatim>\<open>Promise.all\<close>: the list of values when every promise fulfils, rejected as soon as
  one rejects.\<close>

fun promise_all :: "'a promise list \<Rightarrow> 'a list promise" where
  "promise_all [] = Fulfilled []"
| "promise_all (Rejected # ps) = Rejected"
| "promise_all (Fulfilled x # ps) =
    (case promise_all ps of Rejected \<Rightarrow> Rejected | Fulfilled xs \<Rightarrow> Fulfilled (x # xs))"

text \<open>The inner loop: every pair of plugin \<open>i\<close> is pushed with \<open>source: pluginNames[i]\<close>
  and the shared \<open>timestamp\<close>.\<close>

definition tagPairs :: "real \<Rightarrow> string \<Rightarrow> rate_pair list \<Rightarrow> exchange_pair list" where
  "tagPairs ts pluginName ps =
    map (\<lambda>p. \<lparr>fromCurrency = fromCurrency p, toCurrency = toCurrency p, rate = rate p,
               source = pluginName, timestamp = ts\<rparr>) ps"

fun collectPairs :: "real \<Rightarrow> string list \<Rightarrow> rate_pair list list \<Rightarrow> exchange_pair list" where
  "collectPairs ts (n # ns) (l # ls) = tagPairs ts n l @ collectPairs ts ns ls"
| "collectPairs ts _ _ = []"

text \<open>
  \<open>doFetch\<close> on the plugin state read at the call and the clock \<open>now\<close> (milliseconds,
  \<^verbatim>\<open>Date.now()\<close>) read after the await. The result is the state of the promise
  \<open>doFetch\<close> returns, with the actions it passed to \<open>props.dispatch\<close>.
\<close>

definition doFetch :: "plugins_state \<Rightarrow> int \<Rightarrow> unit promise \<times> action list" where
  "doFetch st now =
    (if \<not> locked st then (Fulfilled (), [])
     else
       let pluginNames = map fst (ratePlugins st) in
       (case promise_all (map (fetchPlugin (ratePlugins st)) pluginNames) of
         Rejected \<Rightarrow> (Rejected, [])
       | Fulfilled pairLists \<Rightarrow>
           (Fulfilled (),
            [EXCHANGE_PAIRS_FETCHED (collectPairs (real_of_int now / 1000) pluginNames pairLists)])))"

subsection \<open>The worker: update, the timer and destroy\<close>

text \<open>
  The closure holds \<open>timeout\<close> (undefined at first). The JavaScript runtime holds the
  table of pending timers; \<^verbatim>\<open>setTimeout(doFetch, 30 * 1000)\<close> adds one, a timer leaves
  the table when it fires or when \<^verbatim>\<open>clearTimeout\<close> is given its handle, and
  \<^verbatim>\<open>clearTimeout\<close> of anything else does nothing. A call of \<open>doFetch\<close> stays in
  \<open>inflight\<close> until its promise settles; the one started by \<open>update\<close> carries the
  continuation \<^verbatim>\<open>.catch(() => {}).then(() => { timeout = setTimeout(...) })\<close>, the one
  started by a timer carries none. \<open>fetches\<close> counts the calls of \<open>doFetch\<close> and
  \<open>released\<close> lists the timers \<^verbatim>\<open>clearTimeout\<close> has taken out of the table.
\<close>

datatype origin = FromUpdate | FromTimer

record worker =
  timeout :: "nat option"
  pending :: "(nat \<times> nat) list"
  nextHandle :: nat
  inflight :: "(origin \<times> plugins_state) list"
  dispatched :: "action list"
  fetches :: nat
  released :: "nat list"

definition initWorker :: worker where
  "initWorker = \<lparr>timeout = None, pending = [], nextHandle = 0, inflight = [],
                  dispatched = [], fetches = 0, released = []\<rparr>"

definition setTimeout :: "nat \<Rightarrow> worker \<Rightarrow> nat \<times> worker" where
  "setTimeout delay w =
    (nextHandle w,
     w\<lparr>pending := pending w @ [(nextHandle w, delay)], nextHandle := Suc (nextHandle w)\<rparr>)"

definition clearTimeout :: "nat option \<Rightarrow> worker \<Rightarrow> worker" where
  "clearTimeout h w =
    (case h of
      None \<Rightarrow> w
    | Some t \<Rightarrow>
        if t \<in> fst ` set (pending w)
        then w\<lparr>pending := filter (\<lambda>p. fst p \<noteq> t) (pending w), released := released w @ [t]\<rparr>
        else w)"

definition startFetch :: "origin \<Rightarrow> plugins_state \<Rightarrow> worker \<Rightarrow> worker" where
  "startFetch from st w = w\<lparr>inflight := inflight w @ [(from, st)], fetches := Suc (fetches w)\<rparr>"

text \<open>\<open>update(props)\<close>: starts a fetch only while \<open>timeout\<close> is still unset.\<close>

definition update :: "plugins_state \<Rightarrow> worker \<Rightarrow> worker" where
  "update st w = (if timeout w = None then startFetch FromUpdate st w else w)"

text \<open>The oldest call of \<open>doFetch\<close> in flight settles at clock \<open>now\<close>. After the call
  started by \<open>update\<close>, fulfilled or rejected, the timer is set.\<close>

definition settle :: "int \<Rightarrow> worker \<Rightarrow> worker" where
  "settle now w =
    (case inflight w of
      [] \<Rightarrow> w
    | (from, st) # rest \<Rightarrow>
        let w1 = w\<lparr>inflight := rest, dispatched := dispatched w @ snd (doFetch st now)\<rparr> in
        (case from of
          FromTimer \<Rightarrow> w1
        | FromUpdate \<Rightarrow>
            let (h, w2) = setTimeout (30 * 1000) w1 in w2\<lparr>timeout := Some h\<rparr>))"

text \<open>A pending timer fires: it leaves the table and its callback \<open>doFetch\<close> runs.\<close>

definition fire :: "nat \<Rightarrow> plugins_state \<Rightarrow> worker \<Rightarrow> worker" where
  "fire t st w =
    (if t \<in> fst ` set (pending w)
     then startFetch FromTimer st (w\<lparr>pending := filter (\<lambda>p. fst p \<noteq> t) (pending w)\<rparr>)
     else w)"

definition destroy :: "worker \<Rightarrow> worker" where
  "destroy w = clearTimeout (timeout w) w"

datatype event = Update plugins_state | Settle int | Fire nat plugins_state | Destroy

fun step :: "event \<Rightarrow> worker \<Rightarrow> worker" where
  "step (Update st) w = update st w"
| "step (Settle now) w = settle now w"
| "step (Fire t st) w = fire t st w"
| "step Destroy w = destroy w"

fun run :: "event list \<Rightarrow> worker \<Rightarrow> worker" where
  "run [] w = w"
| "run (e # es) w = run es (step e w)"


text \<open>A worker at rest: no timer pending, no fetch in flight, and \<open>timeout\<close> set, so that
  \<open>update\<close> starts nothing.\<close>

definition idle :: "worker \<Rightarrow> bool" where
  "idle w = (pending w = [] \<and> inflight w = [] \<and> timeout w \<noteq> None)"

section \<open>Untyped documents and the cleaners library\<close>

text \<open>
  The value a cleaner is given (\<open>mixed\<close>): what \<^verbatim>\<open>JSON.parse\<close> produces, with
  \<open>undefined\<close> for a missing property and \<open>Date\<close> objects (\<open>None\<close> is the invalid
  date). An object is its list of properties, the first entry of a key being the one read.
\<close>

datatype json =
  JUndefined
  | JNull
  | JBool bool
  | JNum real
  | JStr string
  | JDate "int option"
  | JArr "json list"
  | JObj "(string \<times> json) list"

text \<open>A cleaned value: strings, numbers, dates (milliseconds), byte arrays
  (\<open>Uint8Array\<close>), arrays and objects.\<close>

datatype val =
  VUndefined
  | VStr string
  | VNum real
  | VDate int
  | VBytes "nat list"
  | VArr "val list"
  | VObj "(string \<times> val) list"

datatype error = Error string | TypeError string

type_synonym cleaner = "json \<Rightarrow> error + val"

text \<open>\<^verbatim>\<open>raw == null\<close>\<close>

definition isNullish :: "json \<Rightarrow> bool" where
  "isNullish raw = (raw = JNull \<or> raw = JUndefined)"

text \<open>\<^verbatim>\<open>typeof raw === 'object' && raw != null\<close>: arrays and dates are objects too.\<close>

fun isObject :: "json \<Rightarrow> bool" where
  "isObject (JObj kvs) = True"
| "isObject (JArr xs) = True"
| "isObject (JDate t) = True"
| "isObject _ = False"

text \<open>\<^verbatim>\<open>raw[key]\<close> for the keys of the shapes below (none of them is \<open>length\<close>, an index
  or a name of \<open>Object.prototype\<close>): the property of an object, \<open>undefined\<close> when
  it is missing and on arrays and dates.\<close>

fun getProp :: "json \<Rightarrow> string \<Rightarrow> json" where
  "getProp (JObj kvs) key = (case map_of kvs key of None \<Rightarrow> JUndefined | Some v \<Rightarrow> v)"
| "getProp _ key = JUndefined"

text \<open>Reading a property of a cleaned object.\<close>

fun getField :: "val \<Rightarrow> string \<Rightarrow> val" where
  "getField (VObj fs) key = (case map_of fs key of None \<Rightarrow> VUndefined | Some v \<Rightarrow> v)"
| "getField _ key = VUndefined"

definition asString :: cleaner where
  "asString raw = (case raw of JStr s \<Rightarrow> Inr (VStr s) | _ \<Rightarrow> Inl (TypeError ''Expected a string''))"

definition asNumber :: cleaner where
  "asNumber raw = (case raw of JNum n \<Rightarrow> Inr (VNum n) | _ \<Rightarrow> Inl (TypeError ''Expected a number''))"

text \<open>\<open>asDate\<close> takes a string or a \<open>Date\<close>, builds \<^verbatim>\<open>new Date(raw)\<close> and refuses the
  invalid date. How the runtime parses a date string is the parameter \<open>parse\<close>.\<close>

definition asDate :: "(string \<Rightarrow> int option) \<Rightarrow> cleaner" where
  "asDate parse raw =
    (case raw of
      JStr s \<Rightarrow>
        (case parse s of
          None \<Rightarrow> Inl (TypeError ''Invalid date format'')
        | Some t \<Rightarrow> Inr (VDate t))
    | JDate tm \<Rightarrow>
        (case tm of
          None \<Rightarrow> Inl (TypeError ''Invalid date format'')
        | Some t \<Rightarrow> Inr (VDate t))
    | _ \<Rightarrow> Inl (TypeError ''Expected a date string''))"

text \<open>\<open>asOptional(cleaner, fallback)\<close>; without a fallback it is \<open>undefined\<close>.\<close>

definition asOptional :: "cleaner \<Rightarrow> val \<Rightarrow> cleaner" where
  "asOptional c fallback raw = (if isNullish raw then Inr fallback else c raw)"

text \<open>The elements of an array are cleaned in order; the first failure is the result.\<close>

fun cleanAll :: "cleaner \<Rightarrow> json list \<Rightarrow> error + val list" where
  "cleanAll c [] = Inr []"
| "cleanAll c (x # xs) =
    (case c x of
      Inl e \<Rightarrow> Inl e
    | Inr v \<Rightarrow> (case cleanAll c xs of Inl e \<Rightarrow> Inl e | Inr vs \<Rightarrow> Inr (v # vs)))"

definition asArray :: "cleaner \<Rightarrow> cleaner" where
  "asArray c raw =
    (case raw of
      JArr xs \<Rightarrow> (case cleanAll c xs of Inl e \<Rightarrow> Inl e | Inr vs \<Rightarrow> Inr (VArr vs))
    | _ \<Rightarrow> Inl (TypeError ''Expected an array''))"

text \<open>
  \<open>asArray\<close> once more, telling the cleaner the index of the element it is given. The
  library has no such argument: it is here only so that a cleaner that reads the clock
  can be given the reading of the element it cleans (see \<open>asLoginDump\<close>); with a cleaner
  that ignores the index it is \<open>asArray\<close>.
\<close>

fun cleanAllAt :: "(nat \<Rightarrow> cleaner) \<Rightarrow> nat \<Rightarrow> json list \<Rightarrow> error + val list" where
  "cleanAllAt c i [] = Inr []"
| "cleanAllAt c i (x # xs) =
    (case c i x of
      Inl e \<Rightarrow> Inl e
    | Inr v \<Rightarrow> (case cleanAllAt c (Suc i) xs of Inl e \<Rightarrow> Inl e | Inr vs \<Rightarrow> Inr (v # vs)))"

definition asArrayAt :: "(nat \<Rightarrow> cleaner) \<Rightarrow> cleaner" where
  "asArrayAt c raw =
    (case raw of
      JArr xs \<Rightarrow> (case cleanAllAt c 0 xs of Inl e \<Rightarrow> Inl e | Inr vs \<Rightarrow> Inr (VArr vs))
    | _ \<Rightarrow> Inl (TypeError ''Expected an array''))"

text \<open>\<open>asValue(...values)\<close> for string literals: \<^verbatim>\<open>raw === value\<close> for one of them.\<close>

definition asValue :: "string list \<Rightarrow> cleaner" where
  "asValue vals raw =
    (case raw of
      JStr s \<Rightarrow> if s \<in> set vals then Inr (VStr s) else Inl (TypeError ''Expected one of the values'')
    | _ \<Rightarrow> Inl (TypeError ''Expected one of the values''))"

text \<open>
  \<open>asObject(shape)\<close>: every key of the shape, in order, has its cleaner applied to
  \<^verbatim>\<open>raw[key]\<close>; the first failure is the result (the library adds the key to the error's
  message, which is not modelled), and a value other than \<open>undefined\<close> is stored under
  the key (a key that is not stored reads as \<open>undefined\<close>, see \<open>getField\<close>). Properties
  of the input that the shape does not name are never read.
\<close>

fun cleanFields :: "(string \<times> cleaner) list \<Rightarrow> json \<Rightarrow> error + (string \<times> val) list" where
  "cleanFields [] raw = Inr []"
| "cleanFields ((key, c) # shape) raw =
    (case c (getProp raw key) of
      Inl e \<Rightarrow> Inl e
    | Inr v \<Rightarrow>
        (case cleanFields shape raw of
          Inl e \<Rightarrow> Inl e
        | Inr out \<Rightarrow> Inr (if v = VUndefined then out else (key, v) # out)))"

definition asObject :: "(string \<times> cleaner) list \<Rightarrow> cleaner" where
  "asObject shape raw =
    (if isObject raw
     then (case cleanFields shape raw of Inl e \<Rightarrow> Inl e | Inr out \<Rightarrow> Inr (VObj out))
     else Inl (TypeError ''Expected an object''))"

section \<open>The login cleaners (unnamed/part_000)\<close>

text \<open>
  \<open>asBase32\<close>, \<open>asBase64\<close>, \<open>asEdgeBox\<close>, \<open>asEdgeSnrp\<close> and \<open>asRecovery2Auth\<close> are
  imported from \<open>server-cleaners.js\<close>, and date strings are parsed by the runtime: the
  login cleaners take them as parameters.
\<close>

record deps =
  parseDate :: "string \<Rightarrow> int option"
  asBase32 :: cleaner
  asBase64 :: cleaner
  asEdgeBox :: cleaner
  asEdgeSnrp :: cleaner
  asRecovery2Auth :: cleaner

definition voucherDumpShape :: "deps \<Rightarrow> (string \<times> cleaner) list" where
  "voucherDumpShape d =
    [(''loginId'', asBase64 d),
     (''voucherAuth'', asBase64 d),
     (''voucherId'', asString),
     (''created'', asDate (parseDate d)),
     (''activates'', asDate (parseDate d)),
     (''status'', asValue [''pending'', ''approved'', ''rejected'']),
     (''ip'', asString),
     (''ipDescription'', asString),
     (''deviceDescription'', asOptional asString VUndefined)]"

definition asVoucherDump :: "deps \<Rightarrow> cleaner" where
  "asVoucherDump d = asObject (voucherDumpShape d)"

text \<open>
  The wall clock. \<^verbatim>\<open>new Date()\<close> is evaluated once for every login whose \<open>created\<close> is
  missing or null, each time at its own moment. A clock gives the reading of each of
  these evaluations, named by the login it is made for: \<open>clock p\<close> is the reading taken
  for the login reached from the root through the indices \<open>p\<close> into \<open>children\<close>
  (\<open>clock []\<close> for the root). Every run of the cleaner has such a clock; the readings of
  different logins need not be equal.
\<close>

type_synonym clock = "nat list \<Rightarrow> int"

text \<open>
  The shape of \<open>asLoginDump\<close>, with the cleaner of the nested logins (\<open>asLoginDump\<close>
  itself, for the child of each index) as \<open>self\<close>.
\<close>

definition loginDumpShape :: "deps \<Rightarrow> clock \<Rightarrow> (nat \<Rightarrow> cleaner) \<Rightarrow> (string \<times> cleaner) list" where
  "loginDumpShape d clock self =
    [(''appId'', asString),
     (''created'', \<lambda>raw. if isNullish raw then Inr (VDate (clock [])) else asDate (parseDate d) raw),
     (''loginId'', asBase64 d),
     (''children'', asOptional (asArrayAt self) (VArr [])),
     (''parentBox'', asOptional (asEdgeBox d) VUndefined),
     (''parentId'', \<lambda>raw. Inr VUndefined),
     (''otpKey'', asOptional (asBase32 d) VUndefined),
     (''otpResetAuth'', asOptional asString VUndefined),
     (''otpResetDate'', asOptional (asDate (parseDate d)) VUndefined),
     (''otpTimeout'', asOptional asNumber VUndefined),
     (''passwordAuth'', asOptional (asBase64 d) VUndefined),
     (''passwordAuthBox'', asOptional (asEdgeBox d) VUndefined),
     (''passwordAuthSnrp'', asOptional (asEdgeSnrp d) VUndefined),
     (''passwordBox'', asOptional (asEdgeBox d) VUndefined),
     (''passwordKeySnrp'', asOptional (asEdgeSnrp d) VUndefined),
     (''pin2Id'', asOptional (asBase64 d) VUndefined),
     (''pin2Auth'', asOptional (asBase64 d) VUndefined),
     (''pin2Box'', asOptional (asEdgeBox d) VUndefined),
     (''pin2KeyBox'', asOptional (asEdgeBox d) VUndefined),
     (''pin2TextBox'', asOptional (asEdgeBox d) VUndefined),
     (''recovery2Id'', asOptional (asBase64 d) VUndefined),
     (''recovery2Auth'', asOptional (asRecovery2Auth d) VUndefined),
     (''question2Box'', asOptional (asEdgeBox d) VUndefined),
     (''recovery2Box'', asOptional (asEdgeBox d) VUndefined),
     (''recovery2KeyBox'', asOptional (asEdgeBox d) VUndefined),
     (''loginAuth'', asOptional (asBase64 d) VUndefined),
     (''loginAuthBox'', asOptional (asEdgeBox d) VUndefined),
     (''keyBoxes'', asOptional (asArray (asEdgeBox d)) (VArr [])),
     (''mnemonicBox'', asOptional (asEdgeBox d) VUndefined),
     (''rootKeyBox'', asOptional (asEdgeBox d) VUndefined),
     (''syncKeyBox'', asOptional (asEdgeBox d) VUndefined),
     (''vouchers'', asOptional (asArray (asVoucherDump d)) (VArr [])),
     (''pinBox'', asOptional (asEdgeBox d) VUndefined),
     (''pinId'', asOptional asString VUndefined),
     (''pinKeyBox'', asOptional (asEdgeBox d) VUndefined)]"

definition loginDumpBody :: "deps \<Rightarrow> clock \<Rightarrow> (nat \<Rightarrow> cleaner) \<Rightarrow> cleaner" where
  "loginDumpBody d clock self raw = asObject (loginDumpShape d clock self) raw"

text \<open>
  \<open>asLoginDump\<close> is \<open>asObject\<close> of that shape, the nested logins being cleaned by
  \<^verbatim>\<open>raw => asLoginDump(raw)\<close>; the child of index \<open>i\<close> has the readings \<open>clock (i # p)\<close>.
  The recursion descends into the elements of the array under \<open>children\<close>, which are
  parts of the document; the lemmas before the definition say so.
\<close>

lemma cleanAllAt_cong [fundef_cong]:
  "xs = ys \<Longrightarrow> i = j \<Longrightarrow> (\<And>k x. x \<in> set ys \<Longrightarrow> c k x = c' k x)
    \<Longrightarrow> cleanAllAt c i xs = cleanAllAt c' j ys"
  by (induction ys arbitrary: xs i j) (auto split: sum.splits)

lemma cleanFields_agree:
  "list_all2 (\<lambda>p q. fst p = fst q \<and> snd p (getProp raw (fst p)) = snd q (getProp raw (fst q))) sh sh'
    \<Longrightarrow> cleanFields sh raw = cleanFields sh' raw"
  by (induction sh sh' rule: list_all2_induct) (auto split: sum.splits)

lemma children_cleaner_agree:
  "(\<And>xs i x. r = JArr xs \<Longrightarrow> x \<in> set xs \<Longrightarrow> self i x = self' i x)
    \<Longrightarrow> asOptional (asArrayAt self) fb r = asOptional (asArrayAt self') fb r"
  by (cases r) (auto simp: asOptional_def asArrayAt_def cong: cleanAllAt_cong)

lemma loginDumpBody_cong [fundef_cong]:
  assumes "d = d'" "clock = clock'" "raw = raw'"
    and "\<And>xs i x. getProp raw' ''children'' = JArr xs \<Longrightarrow> x \<in> set xs \<Longrightarrow> self i x = self' i x"
  shows "loginDumpBody d clock self raw = loginDumpBody d' clock' self' raw'"
proof -
  have "asOptional (asArrayAt self) (VArr []) (getProp raw' ''children'')
      = asOptional (asArrayAt self') (VArr []) (getProp raw' ''children'')"
    using assms(4) by (rule children_cleaner_agree)
  then have "cleanFields (loginDumpShape d' clock' self) raw'
      = cleanFields (loginDumpShape d' clock' self') raw'"
    by (intro cleanFields_agree) (simp add: loginDumpShape_def)
  then show ?thesis
    using assms(1-3) by (simp add: loginDumpBody_def asObject_def)
qed

lemma size_map_of:
  "map_of kvs k = Some v \<Longrightarrow> size v < Suc (size_list (size_prod (\<lambda>_. 0) size) kvs)"
  by (induction kvs) (auto split: if_splits)

lemma getProp_children_size:
  "getProp raw key = JArr xs \<Longrightarrow> x \<in> set xs \<Longrightarrow> size x < size raw"
proof (cases raw)
  case (JObj kvs)
  assume a: "getProp raw key = JArr xs" "x \<in> set xs"
  then have "map_of kvs key = Some (JArr xs)"
    using JObj by (auto split: option.splits)
  from size_map_of [OF this] have "size (JArr xs) < size raw"
    using JObj by simp
  moreover have "size x < size (JArr xs)"
    using a(2) by (induction xs) auto
  ultimately show ?thesis by simp
qed auto

function asLoginDump :: "deps \<Rightarrow> clock \<Rightarrow> cleaner" where
  "asLoginDump d clock raw =
    loginDumpBody d clock (\<lambda>i r. asLoginDump d (\<lambda>p. clock (i # p)) r) raw"
  by pat_completeness auto
termination
  by (relation "measure (\<lambda>(d, clock, raw). size raw)") (auto simp: getProp_children_size)

declare asLoginDump.simps [simp del]

text \<open>
  A result of \<open>asLoginDump\<close> with the defaulted dates blanked: \<open>created\<close> is set to
  undefined wherever the document \<open>raw\<close> does not give it (it is missing or null there), on the
  login and, element by element, on the logins nested under \<open>children\<close>. Nothing else
  is changed and no element is dropped, so two results that are equal after this differ
  at most in defaulted \<open>created\<close> fields.
\<close>

function maskDefaults :: "json \<Rightarrow> val \<Rightarrow> val" where
  "maskDefaults raw out =
    (case out of
      VObj fs \<Rightarrow>
        VObj (map (\<lambda>(key, v).
                if key = ''created'' \<and> isNullish (getProp raw ''created'') then (key, VUndefined)
                else if key = ''children'' then
                  (key, (case (getProp raw ''children'', v) of
                          (JArr xs, VArr vs) \<Rightarrow>
                            VArr (map (\<lambda>(x, w). maskDefaults x w) (zip xs vs) @ drop (length xs) vs)
                        | _ \<Rightarrow> v))
                else (key, v)) fs)
    | _ \<Rightarrow> out)"
  by pat_completeness auto
termination
  by (relation "measure (\<lambda>(raw, out). size raw)")
    (auto dest!: set_zip_leftD intro: getProp_children_size [OF sym])

declare maskDefaults.simps [simp del]

text \<open>What \<open>maskDefaults\<close> does to one field of the result.\<close>

definition maskField :: "json \<Rightarrow> string \<times> val \<Rightarrow> string \<times> val" where
  "maskField raw =
    (\<lambda>(key, v).
      if key = ''created'' \<and> isNullish (getProp raw ''created'') then (key, VUndefined)
      else if key = ''children'' then
        (key, (case (getProp raw ''children'', v) of
                (JArr xs, VArr vs) \<Rightarrow>
                  VArr (map (\<lambda>(x, w). maskDefaults x w) (zip xs vs) @ drop (length xs) vs)
              | _ \<Rightarrow> v))
      else (key, v))"

text \<open>Two entries of two shapes that have the same key and, on the document \<open>raw\<close>, fail
  alike or give values that are both stored or both left out and that \<open>F\<close> makes equal.\<close>

definition sameField ::
  "(string \<times> val \<Rightarrow> string \<times> val) \<Rightarrow> json \<Rightarrow> string \<times> cleaner \<Rightarrow> string \<times> cleaner \<Rightarrow> bool" where
  "sameField F raw p q =
    (fst p = fst q
     \<and> rel_sum (=) (\<lambda>v v'. (v = VUndefined) = (v' = VUndefined) \<and> F (fst p, v) = F (fst p, v'))
          (snd p (getProp raw (fst p))) (snd q (getProp raw (fst p))))"

section \<open>The OTP and password errors (src/types/error.js)\<close>

text \<open>
  The payload cleaners \<open>asOtpErrorPayload\<close> and \<open>asPasswordErrorPayload\<close> come from
  \<open>server-cleaners.js\<close> and \<open>base64.stringify\<close> from rfc4648: the constructors take
  them as parameters. The payload records have the fields the constructors read;
  \<open>reply_reason\<close> is the reply's \<open>reason\<close> (the error has a \<open>reason\<close> of its own).
\<close>

record otp_error_payload =
  login_id :: "string option"
  otp_reset_auth :: "string option"
  otp_timeout_date :: "int option"
  reply_reason :: "string option"
  voucher_activates :: "int option"
  voucher_auth :: "nat list option"
  voucher_id :: "string option"

record password_error_payload =
  wait_seconds :: "real option"

record edge_error =
  name :: string
  message :: string
  type :: string

record otp_error = edge_error +
  loginId :: "string option"
  reason :: string
  resetDate :: "int option"
  resetToken :: "string option"
  voucherId :: "string option"
  voucherAuth :: "string option"
  voucherActivates :: "int option"

record password_error = edge_error +
  wait :: "real option"

text \<open>The assignments of the \<^verbatim>\<open>try\<close> block of \<open>OtpError\<close>, in order; an optional field is
  assigned when the payload's is not null.\<close>

definition otpExtract :: "(nat list \<Rightarrow> string) \<Rightarrow> otp_error_payload \<Rightarrow> otp_error \<Rightarrow> otp_error" where
  "otpExtract stringify reply this =
    (let this1 = (case login_id reply of None \<Rightarrow> this | Some v \<Rightarrow> this\<lparr>loginId := Some v\<rparr>);
         this2 = (case otp_reset_auth reply of None \<Rightarrow> this1 | Some v \<Rightarrow> this1\<lparr>resetToken := Some v\<rparr>);
         this3 = (if reply_reason reply = Some ''ip'' then this2\<lparr>reason := ''ip''\<rparr> else this2);
         this4 = (case otp_timeout_date reply of None \<Rightarrow> this3 | Some v \<Rightarrow> this3\<lparr>resetDate := Some v\<rparr>);
         this5 = (case voucher_activates reply of None \<Rightarrow> this4
                  | Some v \<Rightarrow> this4\<lparr>voucherActivates := Some v\<rparr>);
         this6 = (case voucher_auth reply of None \<Rightarrow> this5
                  | Some v \<Rightarrow> this5\<lparr>voucherAuth := Some (stringify v)\<rparr>)
     in (case voucher_id reply of None \<Rightarrow> this6 | Some v \<Rightarrow> this6\<lparr>voucherId := Some v\<rparr>))"

text \<open>\<^verbatim>\<open>new OtpError(resultsJson, message = 'Invalid OTP token')\<close>: the fields set before
  the \<^verbatim>\<open>try\<close>, then the extraction; a failure of the payload cleaner is caught by the
  empty \<^verbatim>\<open>catch\<close>.\<close>

definition OtpError ::
  "(json \<Rightarrow> error + otp_error_payload) \<Rightarrow> (nat list \<Rightarrow> string) \<Rightarrow> json \<Rightarrow> string option \<Rightarrow> otp_error" where
  "OtpError asOtpErrorPayload stringify resultsJson msg =
    (let this = \<lparr>name = ''OtpError'',
                 message = (case msg of None \<Rightarrow> ''Invalid OTP token'' | Some m \<Rightarrow> m),
                 type = ''OtpError'',
                 loginId = None, reason = ''otp'', resetDate = None, resetToken = None,
                 voucherId = None, voucherAuth = None, voucherActivates = None\<rparr>
     in (case asOtpErrorPayload resultsJson of
          Inl e \<Rightarrow> this
        | Inr reply \<Rightarrow> otpExtract stringify reply this))"

definition PasswordError ::
  "(json \<Rightarrow> error + password_error_payload) \<Rightarrow> json \<Rightarrow> string option \<Rightarrow> password_error" where
  "PasswordError asPasswordErrorPayload resultsJson msg =
    (let this = \<lparr>name = ''PasswordError'',
                 message = (case msg of None \<Rightarrow> ''Invalid password'' | Some m \<Rightarrow> m),
                 type = ''PasswordError'',
                 wait = None\<rparr>
     in (case asPasswordErrorPayload resultsJson of
          Inl e \<Rightarrow> this
        | Inr clean \<Rightarrow> this\<lparr>wait := wait_seconds clean\<rparr>))"

section \<open>The root context (unnamed/part_001)\<close>

subsection \<open>makeContext\<close>

text \<open>
  The options \<open>makeContext\<close> destructures; \<open>None\<close> is a missing (undefined) option, for
  which the default of the destructuring stands, and for \<open>apiKey\<close> also null (the
  options type gives \<open>authServer\<close> as an optional string, so it is never null). The
  \<open>plugins\<close> and \<open>logSettings\<close> options are only passed on and are left out.
\<close>

record context_options =
  apiKey :: "string option"
  appId :: "string option"
  authServer :: "string option"
  deviceDescription :: "string option"
  hideKeys :: "bool option"

text \<open>The payload of the \<open>INIT\<close> action.\<close>

record init_payload =
  initApiKey :: string
  initAppId :: string
  initAuthServer :: string
  initDeviceDescription :: "string option"
  initHideKeys :: bool

text \<open>\<^verbatim>\<open>String.prototype.endsWith\<close>\<close>

definition endsWith :: "string \<Rightarrow> string \<Rightarrow> bool" where
  "endsWith s suffix =
    (length suffix \<le> length s \<and> drop (length s - length suffix) s = suffix)"

text \<open>The head of \<open>makeContext\<close>: the defaults, the two checks in the order of the source,
  and the login server's URI.\<close>

definition contextSettings :: "context_options \<Rightarrow> error + init_payload" where
  "contextSettings opts =
    (let server = (case authServer opts of None \<Rightarrow> ''https://login.edge.app'' | Some s \<Rightarrow> s) in
     if \<not> endsWith server ''.edge.app'' \<and> \<not> endsWith server ''.edgetest.app''
     then Inl (Error (''Invalid login server passed to makeContext: '' @ server))
     else
       (case apiKey opts of
         None \<Rightarrow> Inl (Error ''No API key provided'')
       | Some key \<Rightarrow>
           Inr \<lparr>initApiKey = key,
                initAppId = (case appId opts of None \<Rightarrow> [] | Some a \<Rightarrow> a),
                initAuthServer = server @ ''/api'',
                initDeviceDescription = deviceDescription opts,
                initHideKeys = (case hideKeys opts of None \<Rightarrow> False | Some h \<Rightarrow> h)\<rparr>))"

text \<open>
  What \<open>makeContext\<close> does to the world, in order. After the checks it creates the redux
  store; everything after that (the disk reads, the \<open>INIT\<close> dispatch, the plugin watcher,
  the sync client and the tree of workers) calls into other modules and is the parameter
  \<open>rest\<close>, which gives the further effects and the outcome for the settings.
\<close>

datatype effect = CreateStore | LoadFromDisk | DispatchInit init_payload | WatchPlugins
  | MakeSyncClient | AttachPixie

definition makeContext ::
  "(init_payload \<Rightarrow> effect list \<times> (error + 'c)) \<Rightarrow> context_options \<Rightarrow> effect list \<times> (error + 'c)" where
  "makeContext rest opts =
    (case contextSettings opts of
      Inl e \<Rightarrow> ([], Inl e)
    | Inr settings \<Rightarrow> (CreateStore # fst (rest settings), snd (rest settings)))"

subsection \<open>The context pixie's watcher\<close>

text \<open>
  What the watcher reads of its props: \<open>state.login.localUsers\<close>, \<open>state.paused\<close>,
  \<open>state.logSettings\<close>, the rest of the state, and \<open>output.context.api\<close> (\<open>None\<close> while
  no API object has been put out). The arrays and objects of the state are compared with
  \<^verbatim>\<open>!==\<close>, by identity: a value of type \<open>'u\<close> or \<open>'s\<close> stands for a reference.
\<close>

record ('u, 's, 'o, 'a) context_props =
  localUsers :: 'u
  paused :: bool
  logSettings :: 's
  otherState :: 'o
  api :: "'a option"

text \<open>The closure's variables; \<open>None\<close> is \<open>undefined\<close>, their value before the first
  evaluation.\<close>

record ('u, 's) watcher_vars =
  lastLocalUsers :: "'u option"
  lastPaused :: "bool option"
  lastLogSettings :: "'s option"

definition initWatcher :: "('u, 's) watcher_vars" where
  "initWatcher = \<lparr>lastLocalUsers = None, lastPaused = None, lastLogSettings = None\<rparr>"

definition watchedChanged :: "('u, 's, 'o, 'a) context_props \<Rightarrow> ('u, 's) watcher_vars \<Rightarrow> bool" where
  "watchedChanged props w =
    (lastLocalUsers w \<noteq> Some (localUsers props)
     \<or> lastPaused w \<noteq> Some (paused props)
     \<or> lastLogSettings w \<noteq> Some (logSettings props))"

text \<open>One evaluation of the watcher: the new variables and the objects \<open>update\<close> of yaob
  was called on.\<close>

definition watcher ::
  "('u, 's, 'o, 'a) context_props \<Rightarrow> ('u, 's) watcher_vars \<Rightarrow> ('u, 's) watcher_vars \<times> 'a list" where
  "watcher props w =
    (if watchedChanged props w
     then (\<lparr>lastLocalUsers = Some (localUsers props), lastPaused = Some (paused props),
            lastLogSettings = Some (logSettings props)\<rparr>,
           (case api props of None \<Rightarrow> [] | Some a \<Rightarrow> [a]))
     else (w, []))"

subsection \<open>The context pixie's API leaf\<close>



section \<open>Sample documents\<close>

text \<open>
  An instance of the parameters of the login cleaners, and documents, on which the
  theorems below are evaluated: the date parser knows one date string, a binary field is
  a string and is taken byte for byte, a box or an SNRP is any object.
\<close>

definition textBytes :: cleaner where
  "textBytes raw =
    (case raw of JStr s \<Rightarrow> Inr (VBytes (map of_char s)) | _ \<Rightarrow> Inl (TypeError ''Expected a string''))"

definition sampleDeps :: deps where
  "sampleDeps =
    \<lparr>parseDate = (\<lambda>s. if s = ''2020-01-01T00:00:00.000Z'' then Some 1577836800000 else None),
     asBase32 = textBytes,
     asBase64 = textBytes,
     asEdgeBox = asObject [],
     asEdgeSnrp = asObject [],
     asRecovery2Auth = asArray textBytes\<rparr>"

definition sampleLogin :: "(string \<times> json) list" where
  "sampleLogin = [(''appId'', JStr ''edge''), (''loginId'', JStr ''aWQ=''), (''parentId'', JStr ''cGFyZW50'')]"

definition sampleVoucher :: "(string \<times> json) list" where
  "sampleVoucher =
    [(''loginId'', JStr ''aWQ=''), (''voucherAuth'', JStr ''YXV0aA==''), (''voucherId'', JStr ''v1''),
     (''created'', JStr ''2020-01-01T00:00:00.000Z''), (''activates'', JStr ''2020-01-01T00:00:00.000Z''),
     (''ip'', JStr ''10.0.0.1''), (''ipDescription'', JStr ''lan'')]"


text \<open>Instances of the payload cleaners of the errors: an object whose fields, when
  given, are strings (or a number for \<open>wait_seconds\<close>).\<close>

fun strOf :: "val \<Rightarrow> string option" where
  "strOf (VStr s) = Some s"
| "strOf _ = None"

fun numOf :: "val \<Rightarrow> real option" where
  "numOf (VNum n) = Some n"
| "numOf _ = None"

definition sampleOtpPayload :: "json \<Rightarrow> error + otp_error_payload" where
  "sampleOtpPayload raw =
    (case asObject [(''login_id'', asOptional asString VUndefined),
                    (''otp_reset_auth'', asOptional asString VUndefined),
                    (''reason'', asOptional asString VUndefined),
                    (''voucher_id'', asOptional asString VUndefined)] raw of
      Inl e \<Rightarrow> Inl e
    | Inr v \<Rightarrow>
        Inr \<lparr>login_id = strOf (getField v ''login_id''),
             otp_reset_auth = strOf (getField v ''otp_reset_auth''),
             otp_timeout_date = None,
             reply_reason = strOf (getField v ''reason''),
             voucher_activates = None,
             voucher_auth = None,
             voucher_id = strOf (getField v ''voucher_id'')\<rparr>)"

definition samplePasswordPayload :: "json \<Rightarrow> error + password_error_payload" where
  "samplePasswordPayload raw =
    (case asObject [(''wait_seconds'', asOptional asNumber VUndefined)] raw of
      Inl e \<Rightarrow> Inl e
    | Inr v \<Rightarrow> Inr \<lparr>wait_seconds = numOf (getField v ''wait_seconds'')\<rparr>)"

section \<open>Properties of the exchange-rate worker\<close>

lemma idle_step: "idle w \<Longrightarrow> step e w = w"
  by (cases e) (auto simp: idle_def update_def settle_def fire_def destroy_def clearTimeout_def)

lemma idle_run: "idle w \<Longrightarrow> run es w = w"
  by (induction es) (simp_all add: idle_step)

lemmas worker_defs = initWorker_def update_def settle_def fire_def startFetch_def setTimeout_def
  destroy_def clearTimeout_def

lemma first_fetch_sets_timer:
  "run [Update st, Settle t1] initWorker =
    \<lparr>timeout = Some 0, pending = [(0, 30000)], nextHandle = 1, inflight = [],
     dispatched = snd (doFetch st t1), fetches = 1, released = []\<rparr>"
  by (simp add: worker_defs)

lemma second_fetch_sets_none:
  "run [Update st, Settle t1, Fire 0 st', Settle t2] initWorker =
    \<lparr>timeout = Some 0, pending = [], nextHandle = 1, inflight = [],
     dispatched = snd (doFetch st t1) @ snd (doFetch st' t2), fetches = 2, released = []\<rparr>"
  by (simp add: worker_defs)

text \<open>
  Claim C1 says that after every fetch attempt, for the whole life of the worker, the next
  one is scheduled 30 seconds later. The attempt that \<open>update\<close> starts does set the timer
  (30 * 1000 ms, whether the attempt succeeded or failed), but the attempt the timer starts
  sets none: after it has settled no timer is pending and \<open>timeout\<close> is still set, so
  whatever happens afterwards (\<open>es\<close>: any updates, and no timer or fetch is left to
  fire or settle), the worker has called \<open>doFetch\<close> exactly twice.
\<close>

theorem fetching_stops_after_second_attempt:
  "pending (run [Update st, Settle t1] initWorker) = [(0, 30 * 1000)]
   \<and> pending (run [Update st, Settle t1, Fire 0 st', Settle t2] initWorker) = []
   \<and> fetches (run es (run [Update st, Settle t1, Fire 0 st', Settle t2] initWorker)) = 2"
proof -
  have "idle (run [Update st, Settle t1, Fire 0 st', Settle t2] initWorker)"
    unfolding second_fetch_sets_none by (simp add: idle_def)
  from idle_run [OF this] show ?thesis
    unfolding first_fetch_sets_timer second_fetch_sets_none by simp
qed

lemma promise_all_rejected:
  "Rejected \<in> set ps \<Longrightarrow> promise_all ps = Rejected"
  by (induction ps rule: promise_all.induct) (auto split: promise.splits)

lemma promise_all_fulfilled:
  "Rejected \<notin> set ps \<Longrightarrow> promise_all ps = Fulfilled (map (\<lambda>p. case p of Fulfilled x \<Rightarrow> x) ps)"
  by (induction ps rule: promise_all.induct) (auto split: promise.splits)

lemma doFetch_rejection_blocks_dispatch:
  assumes "locked st" "distinct (map fst (ratePlugins st))"
    and "(n, p) \<in> set (ratePlugins st)" "p hintPairs = Rejects"
  shows "doFetch st now = (Rejected, [])"
proof -
  from assms(2,3) have "map_of (ratePlugins st) n = Some p" by simp
  with assms(4) have "fetchPlugin (ratePlugins st) n = Rejected"
    by (simp add: fetchPlugin_def)
  moreover from assms(3) have "n \<in> set (map fst (ratePlugins st))" by force
  ultimately have "Rejected \<in> set (map (fetchPlugin (ratePlugins st)) (map fst (ratePlugins st)))"
    by force
  from promise_all_rejected [OF this] assms(1) show ?thesis
    by (simp add: doFetch_def)
qed

lemma collectPairs_map:
  "collectPairs ts (map fst tbl) (map f tbl) = concat (map (\<lambda>e. tagPairs ts (fst e) (f e)) tbl)"
  by (induction tbl) auto

lemma doFetch_tolerates_throws:
  assumes "locked st" "distinct (map fst (ratePlugins st))"
    and "\<forall>e \<in> set (ratePlugins st). snd e hintPairs \<noteq> Rejects"
  shows "doFetch st now =
    (Fulfilled (),
     [EXCHANGE_PAIRS_FETCHED
       (concat (map (\<lambda>e. tagPairs (real_of_int now / 1000) (fst e)
                      (case snd e hintPairs of Returns ps \<Rightarrow> ps | _ \<Rightarrow> []))
                 (ratePlugins st)))])"
proof -
  let ?f = "\<lambda>e. case snd e hintPairs of Returns ps \<Rightarrow> ps | _ \<Rightarrow> []"
  have each: "fetchPlugin (ratePlugins st) (fst e) = Fulfilled (?f e)"
    if "e \<in> set (ratePlugins st)" for e
  proof -
    from assms(2) that have "map_of (ratePlugins st) (fst e) = Some (snd e)" by simp
    with assms(3) that show ?thesis
      by (auto simp: fetchPlugin_def split: fetch_outcome.splits)
  qed
  then have m: "map (fetchPlugin (ratePlugins st)) (map fst (ratePlugins st))
      = map (\<lambda>e. Fulfilled (?f e)) (ratePlugins st)"
    by simp
  have pa: "promise_all (map (fetchPlugin (ratePlugins st)) (map fst (ratePlugins st)))
      = Fulfilled (map ?f (ratePlugins st))"
    unfolding m by (subst promise_all_fulfilled) (auto simp: comp_def)
  show ?thesis
    unfolding doFetch_def Let_def pa using assms(1) by (simp add: collectPairs_map)
qed

text \<open>
  Claim C2 says that when some rate plugins fail (throw, or reject from \<open>fetchRates\<close>) the
  worker still dispatches \<open>EXCHANGE_PAIRS_FETCHED\<close> with the pairs of the others. With
  plugin \<open>a\<close> rejecting and plugin \<open>b\<close> returning one pair, \<open>doFetch\<close> rejects and
  dispatches nothing; had \<open>a\<close> thrown synchronously, the pair of \<open>b\<close> would have been
  dispatched.
\<close>

theorem rejecting_plugin_blocks_dispatch:
  "doFetch \<lparr>locked = True, ratePlugins = [(''a'', \<lambda>_. Rejects), (''b'', \<lambda>_. Returns [p])]\<rparr> now
     = (Rejected, [])
   \<and> doFetch \<lparr>locked = True, ratePlugins = [(''a'', \<lambda>_. Throws), (''b'', \<lambda>_. Returns [p])]\<rparr> now
     = (Fulfilled (), [EXCHANGE_PAIRS_FETCHED (tagPairs (real_of_int now / 1000) ''b'' [p])])"
  by (simp add: doFetch_def fetchPlugin_def tagPairs_def)









section \<open>Properties of the login cleaners\<close>

lemma cleanAllAt_ignoring_index: "cleanAllAt (\<lambda>i. c) i xs = cleanAll c xs"
  by (induction xs arbitrary: i) (simp_all split: sum.splits)

lemma asArrayAt_ignoring_index: "asArrayAt (\<lambda>i. c) raw = asArray c raw"
  by (cases raw) (simp_all add: asArrayAt_def asArray_def cleanAllAt_ignoring_index)

lemma maskDefaults_VObj: "maskDefaults raw (VObj fs) = VObj (map (maskField raw) fs)"
  by (simp add: maskDefaults.simps [of raw "VObj fs"] maskField_def)

lemma login_tree_induct [case_names login]:
  assumes "\<And>raw. (\<And>xs x. getProp raw ''children'' = JArr xs \<Longrightarrow> x \<in> set xs \<Longrightarrow> P x) \<Longrightarrow> P raw"
  shows "P raw"
proof (induction raw rule: measure_induct_rule [of size])
  case (less raw)
  show ?case
    by (rule assms) (rule less, rule getProp_children_size)
qed

lemma sameField_refl [simp]: "sameField F raw p p"
  by (cases "snd p (getProp raw (fst p))") (simp_all add: sameField_def)

lemma cleanFields_masked:
  "list_all2 (sameField F raw) sh sh'
    \<Longrightarrow> rel_sum (=) (\<lambda>fs fs'. map F fs = map F fs') (cleanFields sh raw) (cleanFields sh' raw)"
proof (induction sh sh' rule: list_all2_induct)
  case Nil
  then show ?case by simp
next
  case (Cons p sh q sh')
  obtain k c where p: "p = (k, c)" by (cases p)
  obtain k' c' where q: "q = (k', c')" by (cases q)
  from Cons.hyps(1) p q have k: "k' = k"
    and r: "rel_sum (=) (\<lambda>v v'. (v = VUndefined) = (v' = VUndefined) \<and> F (k, v) = F (k, v'))
          (c (getProp raw k)) (c' (getProp raw k))"
    by (auto simp: sameField_def)
  show ?case
    using r Cons.IH unfolding p q k
    by (cases "c (getProp raw k)"; cases "c' (getProp raw k)";
        cases "cleanFields sh raw"; cases "cleanFields sh' raw") auto
qed

lemma cleanAllAt_masked:
  assumes "\<And>i x. x \<in> set xs
    \<Longrightarrow> rel_sum (=) (\<lambda>v v'. maskDefaults x v = maskDefaults x v') (c i x) (c' i x)"
  shows "rel_sum (=)
    (\<lambda>vs vs'. length vs = length xs \<and> length vs' = length xs
      \<and> map (\<lambda>(x, w). maskDefaults x w) (zip xs vs) = map (\<lambda>(x, w). maskDefaults x w) (zip xs vs'))
    (cleanAllAt c i xs) (cleanAllAt c' i xs)"
  using assms
proof (induction xs arbitrary: i)
  case Nil
  then show ?case by simp
next
  case (Cons x xs)
  have h: "rel_sum (=) (\<lambda>v v'. maskDefaults x v = maskDefaults x v') (c i x) (c' i x)"
    by (rule Cons.prems) simp
  have t: "rel_sum (=)
    (\<lambda>vs vs'. length vs = length xs \<and> length vs' = length xs
      \<and> map (\<lambda>(x, w). maskDefaults x w) (zip xs vs) = map (\<lambda>(x, w). maskDefaults x w) (zip xs vs'))
    (cleanAllAt c (Suc i) xs) (cleanAllAt c' (Suc i) xs)"
    by (rule Cons.IH) (rule Cons.prems, simp)
  show ?case
    using h t
    by (cases "c i x"; cases "c' i x"; cases "cleanAllAt c (Suc i) xs";
        cases "cleanAllAt c' (Suc i) xs") auto
qed

lemma created_sameField:
  "sameField (maskField raw) raw
    (''created'', \<lambda>r. if isNullish r then Inr (VDate a) else asDate parse r)
    (''created'', \<lambda>r. if isNullish r then Inr (VDate b) else asDate parse r)"
proof (cases "isNullish (getProp raw ''created'')")
  case True
  then show ?thesis by (simp add: sameField_def maskField_def)
next
  case False
  then show ?thesis
    by (cases "asDate parse (getProp raw ''created'')") (simp_all add: sameField_def)
qed

lemma children_sameField:
  assumes "\<And>xs i x. getProp raw ''children'' = JArr xs \<Longrightarrow> x \<in> set xs
    \<Longrightarrow> rel_sum (=) (\<lambda>v v'. maskDefaults x v = maskDefaults x v') (s1 i x) (s2 i x)"
  shows "sameField (maskField raw) raw
    (''children'', asOptional (asArrayAt s1) (VArr []))
    (''children'', asOptional (asArrayAt s2) (VArr []))"
proof (cases "getProp raw ''children''")
  case (JArr xs)
  have "rel_sum (=)
    (\<lambda>vs vs'. length vs = length xs \<and> length vs' = length xs
      \<and> map (\<lambda>(x, w). maskDefaults x w) (zip xs vs) = map (\<lambda>(x, w). maskDefaults x w) (zip xs vs'))
    (cleanAllAt s1 0 xs) (cleanAllAt s2 0 xs)"
    by (rule cleanAllAt_masked) (rule assms [OF JArr])
  then show ?thesis
    using JArr
    by (cases "cleanAllAt s1 0 xs"; cases "cleanAllAt s2 0 xs")
      (simp_all add: sameField_def maskField_def asOptional_def asArrayAt_def isNullish_def)
qed (simp_all add: sameField_def maskField_def asOptional_def asArrayAt_def isNullish_def)

lemma masked_results_agree:
  "rel_sum (=) (\<lambda>v v'. maskDefaults raw v = maskDefaults raw v')
    (asLoginDump d c1 raw) (asLoginDump d c2 raw)"
proof (induction raw arbitrary: c1 c2 rule: login_tree_induct)
  case (login raw)
  let ?s1 = "\<lambda>i r. asLoginDump d (\<lambda>p. c1 (i # p)) r"
  let ?s2 = "\<lambda>i r. asLoginDump d (\<lambda>p. c2 (i # p)) r"
  have kids: "sameField (maskField raw) raw
    (''children'', asOptional (asArrayAt ?s1) (VArr []))
    (''children'', asOptional (asArrayAt ?s2) (VArr []))"
    by (rule children_sameField) (rule login.IH)
  have "list_all2 (sameField (maskField raw) raw)
    (loginDumpShape d c1 ?s1) (loginDumpShape d c2 ?s2)"
    by (simp add: loginDumpShape_def created_sameField kids)
  from cleanFields_masked [OF this] show ?case
    by (cases "cleanFields (loginDumpShape d c1 ?s1) raw";
        cases "cleanFields (loginDumpShape d c2 ?s2) raw")
      (simp_all add: asLoginDump.simps [of d c1 raw] asLoginDump.simps [of d c2 raw]
        loginDumpBody_def asObject_def maskDefaults_VObj)
qed

lemma masked_lookup:
  assumes "map (maskField raw) fs1 = map (maskField raw) fs2"
    and "\<And>v. maskField raw (k, v) = (k, v)"
  shows "map_of fs1 k = map_of fs2 k"
  using assms(1)
proof (induction fs1 arbitrary: fs2)
  case Nil
  then show ?case by simp
next
  case (Cons p fs1)
  from Cons.prems obtain q fs2' where fs2: "fs2 = q # fs2'"
    and pq: "maskField raw p = maskField raw q"
    and rest: "map (maskField raw) fs1 = map (maskField raw) fs2'"
    by (cases fs2) auto
  have key: "fst (maskField raw e) = fst e" for e
    by (cases e) (simp add: maskField_def)
  from pq key [of p] key [of q] have same: "fst p = fst q" by simp
  show ?case
  proof (cases "fst p = k")
    case True
    with same pq assms(2) [of "snd p"] assms(2) [of "snd q"] have "p = q"
      by (cases p; cases q) simp
    with True fs2 show ?thesis by (cases q) simp
  next
    case False
    with same fs2 Cons.IH [OF rest] show ?thesis by (cases p; cases q) simp
  qed
qed

lemma maskDefaults_given_leaf:
  assumes "\<not> isNullish (getProp raw ''created'')" "getProp raw ''children'' = JUndefined"
  shows "maskDefaults raw (VObj fs) = VObj fs"
proof -
  have "maskField raw e = e" for e
    using assms by (cases e) (simp add: maskField_def)
  then have "map (maskField raw) fs = fs"
    by (induction fs) simp_all
  then show ?thesis
    by (simp add: maskDefaults_VObj)
qed

lemma cleanFields_lookup:
  "cleanFields sh raw = Inr fs \<Longrightarrow> map_of fs k = Some v
    \<Longrightarrow> v \<noteq> VUndefined \<and> (\<exists>c. (k, c) \<in> set sh \<and> c (getProp raw k) = Inr v)"
proof (induction sh arbitrary: fs)
  case Nil
  then show ?case by simp
next
  case (Cons p sh)
  obtain key c where p: "p = (key, c)" by (cases p)
  from Cons.prems(1) p obtain v' out where
    v': "c (getProp raw key) = Inr v'" and out: "cleanFields sh raw = Inr out"
    and fs: "fs = (if v' = VUndefined then out else (key, v') # out)"
    by (auto split: sum.splits)
  show ?case
  proof (cases "v' \<noteq> VUndefined \<and> k = key")
    case True
    with fs Cons.prems(2) have "v = v'" by simp
    with True v' p show ?thesis by auto
  next
    case False
    with fs Cons.prems(2) have "map_of out k = Some v" by (auto split: if_splits)
    from Cons.IH [OF out this] show ?thesis by auto
  qed
qed

lemma cleanFields_field:
  "distinct (map fst sh) \<Longrightarrow> cleanFields sh raw = Inr fs \<Longrightarrow> (k, c) \<in> set sh
    \<Longrightarrow> c (getProp raw k) = Inr (getField (VObj fs) k)"
proof (induction sh arbitrary: fs)
  case Nil
  then show ?case by simp
next
  case (Cons p sh)
  obtain key c' where p: "p = (key, c')" by (cases p)
  from Cons.prems(2) p obtain v' out where
    v': "c' (getProp raw key) = Inr v'" and out: "cleanFields sh raw = Inr out"
    and fs: "fs = (if v' = VUndefined then out else (key, v') # out)"
    by (auto split: sum.splits)
  have nokey: "map_of out key = None"
  proof (cases "map_of out key")
    case (Some w)
    from cleanFields_lookup [OF out Some] obtain c'' where "(key, c'') \<in> set sh" by auto
    then have "key \<in> fst ` set sh" by force
    with Cons.prems(1) p show ?thesis by simp
  qed simp
  show ?case
  proof (cases "(k, c) = p")
    case True
    with p v' fs nokey show ?thesis by auto
  next
    case False
    with Cons.prems(3) have mem: "(k, c) \<in> set sh" by simp
    then have "k \<in> fst ` set sh" by force
    with Cons.prems(1) p have "k \<noteq> key" by auto
    moreover from Cons.prems(1) have "distinct (map fst sh)" by simp
    from Cons.IH [OF this out mem] have "c (getProp raw k) = Inr (getField (VObj out) k)" .
    ultimately show ?thesis using fs by simp
  qed
qed

lemma cleanFields_succeeds:
  "(\<exists>fs. cleanFields sh raw = Inr fs) = list_all (\<lambda>(k, c). \<exists>v. c (getProp raw k) = Inr v) sh"
  by (induction sh) (auto split: sum.splits)

lemma loginDumpShape_keys: "distinct (map fst (loginDumpShape d clock self))"
  by (simp add: loginDumpShape_def)

lemma voucherDumpShape_keys: "distinct (map fst (voucherDumpShape d))"
  by (simp add: voucherDumpShape_def)

lemma asLoginDump_fields:
  "asLoginDump d clock raw = Inr out \<Longrightarrow>
    isObject raw
    \<and> (\<exists>fs. out = VObj fs
          \<and> cleanFields (loginDumpShape d clock (\<lambda>i. asLoginDump d (\<lambda>p. clock (i # p)))) raw = Inr fs)"
  by (auto simp: asLoginDump.simps [of d clock raw] loginDumpBody_def asObject_def
      split: if_splits sum.splits)

lemma cleanFields_field_any:
  assumes "distinct (map fst sh)" "cleanFields sh raw = Inr fs"
  shows "getField (VObj fs) k =
    (case map_of sh k of None \<Rightarrow> VUndefined | Some c \<Rightarrow> projr (c (getProp raw k)))"
proof (cases "map_of sh k")
  case None
  have "map_of fs k = None"
  proof (cases "map_of fs k")
    case (Some v)
    from cleanFields_lookup [OF assms(2) Some] obtain c where "(k, c) \<in> set sh" by auto
    then have "k \<in> fst ` set sh" by force
    with None show ?thesis by (simp add: map_of_eq_None_iff)
  qed simp
  with None show ?thesis by simp
next
  case (Some c)
  then have "(k, c) \<in> set sh" by (rule map_of_SomeD)
  from cleanFields_field [OF assms this] Some show ?thesis by simp
qed

lemma cleanFields_other_keys:
  assumes dist: "distinct (map fst sh)" and k0: "(k0, c0) \<in> set sh"
    and same: "\<And>k. k \<noteq> k0 \<Longrightarrow> getProp raw k = getProp raw' k"
    and ok': "cleanFields sh raw' = Inr fs'" and v0: "c0 (getProp raw k0) = Inr v0"
  shows "\<exists>fs. cleanFields sh raw = Inr fs \<and> getField (VObj fs) k0 = v0
    \<and> (\<forall>k. k \<noteq> k0 \<longrightarrow> getField (VObj fs) k = getField (VObj fs') k)"
proof -
  from ok' have all': "list_all (\<lambda>(k, c). \<exists>v. c (getProp raw' k) = Inr v) sh"
    using cleanFields_succeeds [of sh raw'] by auto
  have "list_all (\<lambda>(k, c). \<exists>v. c (getProp raw k) = Inr v) sh"
    unfolding list_all_iff
  proof (clarify)
    fix k c assume kc: "(k, c) \<in> set sh"
    show "\<exists>v. c (getProp raw k) = Inr v"
    proof (cases "k = k0")
      case True
      with dist kc k0 have "c = c0" by (auto dest: eq_key_imp_eq_value)
      with True v0 show ?thesis by simp
    next
      case False
      from all' kc have "\<exists>v. c (getProp raw' k) = Inr v" by (auto simp: list_all_iff)
      with same [OF False] show ?thesis by simp
    qed
  qed
  then obtain fs where fs: "cleanFields sh raw = Inr fs"
    using cleanFields_succeeds [of sh raw] by auto
  from cleanFields_field [OF dist fs k0] v0 have "getField (VObj fs) k0 = v0" by simp
  moreover have "getField (VObj fs) k = getField (VObj fs') k" if "k \<noteq> k0" for k
    unfolding cleanFields_field_any [OF dist fs] cleanFields_field_any [OF dist ok']
    using same [OF that] by (simp split: option.splits)
  ultimately show ?thesis using fs by blast
qed

lemma getProp_override: "k \<noteq> k0 \<Longrightarrow> getProp (JObj kvs) k = getProp (JObj ((k0, v) # kvs)) k"
  by simp

lemmas cleaner_defs = loginDumpBody_def asObject_def loginDumpShape_def voucherDumpShape_def
  asVoucherDump_def asOptional_def asArray_def asArrayAt_def asString_def asNumber_def asDate_def
  asValue_def isNullish_def sampleDeps_def textBytes_def sampleLogin_def sampleVoucher_def

lemma sampleLogin_clean:
  "asLoginDump sampleDeps clock (JObj sampleLogin) =
    Inr (VObj [(''appId'', VStr ''edge''), (''created'', VDate (clock [])),
               (''loginId'', VBytes [97, 87, 81, 61]), (''children'', VArr []),
               (''keyBoxes'', VArr []), (''vouchers'', VArr [])])"
  by (simp add: asLoginDump.simps cleaner_defs)

lemma sampleLogin_dated_clean:
  "asLoginDump sampleDeps clock (JObj ((''created'', JDate (Some t)) # sampleLogin)) =
    Inr (VObj [(''appId'', VStr ''edge''), (''created'', VDate t),
               (''loginId'', VBytes [97, 87, 81, 61]), (''children'', VArr []),
               (''keyBoxes'', VArr []), (''vouchers'', VArr [])])"
  by (simp add: asLoginDump.simps cleaner_defs)



lemma asVoucherDump_fields:
  "asVoucherDump d raw = Inr out \<Longrightarrow>
    isObject raw \<and> (\<exists>fs. out = VObj fs \<and> cleanFields (voucherDumpShape d) raw = Inr fs)"
  by (auto simp: asVoucherDump_def asObject_def split: if_splits sum.splits)

lemma asValue_accepts:
  "(asValue vals raw = Inr v) = (\<exists>s. s \<in> set vals \<and> raw = JStr s \<and> v = VStr s)"
  by (cases raw) (auto simp: asValue_def)

lemma sampleVoucher_clean:
  "asVoucherDump sampleDeps (JObj ((''status'', JStr s) # sampleVoucher)) =
    (if s \<in> {''pending'', ''approved'', ''rejected''}
     then Inr (VObj [(''loginId'', VBytes [97, 87, 81, 61]),
                     (''voucherAuth'', VBytes [89, 88, 86, 48, 97, 65, 61, 61]),
                     (''voucherId'', VStr ''v1''), (''created'', VDate 1577836800000),
                     (''activates'', VDate 1577836800000), (''status'', VStr s),
                     (''ip'', VStr ''10.0.0.1''), (''ipDescription'', VStr ''lan'')])
     else Inl (TypeError ''Expected one of the values''))"
  by (simp add: cleaner_defs)

lemma accepted_at_any_clock:
  assumes "asLoginDump d c1 raw = Inr o1"
  shows "\<exists>o2. asLoginDump d c2 raw = Inr o2
    \<and> maskDefaults raw o1 = maskDefaults raw o2
    \<and> (\<forall>k. k \<noteq> ''created'' \<and> k \<noteq> ''children'' \<longrightarrow> getField o1 k = getField o2 k)
    \<and> (\<not> isNullish (getProp raw ''created'') \<longrightarrow> getField o1 ''created'' = getField o2 ''created'')"
proof -
  from assms masked_results_agree [of raw d c1 c2] obtain o2
    where o2: "asLoginDump d c2 raw = Inr o2" and m: "maskDefaults raw o1 = maskDefaults raw o2"
    by (cases "asLoginDump d c2 raw") simp_all
  from asLoginDump_fields [OF assms] obtain fs1 where fs1: "o1 = VObj fs1" by auto
  from asLoginDump_fields [OF o2] obtain fs2 where fs2: "o2 = VObj fs2" by auto
  from m fs1 fs2 have mm: "map (maskField raw) fs1 = map (maskField raw) fs2"
    by (simp add: maskDefaults_VObj)
  have other: "getField o1 k = getField o2 k" if "k \<noteq> ''created''" "k \<noteq> ''children''" for k
  proof -
    have "maskField raw (k, v) = (k, v)" for v
      using that by (simp add: maskField_def)
    from masked_lookup [OF mm this] fs1 fs2 show ?thesis by simp
  qed
  have given: "getField o1 ''created'' = getField o2 ''created''"
    if "\<not> isNullish (getProp raw ''created'')"
  proof -
    have "maskField raw (''created'', v) = (''created'', v)" for v
      using that by (simp add: maskField_def)
    from masked_lookup [OF mm this] fs1 fs2 show ?thesis by simp
  qed
  show ?thesis
  proof (intro exI conjI allI impI)
    show "asLoginDump d c2 raw = Inr o2" by (rule o2)
    show "maskDefaults raw o1 = maskDefaults raw o2" by (rule m)
    show "getField o1 k = getField o2 k" if "k \<noteq> ''created'' \<and> k \<noteq> ''children''" for k
      by (rule other) (simp_all add: that)
    show "getField o1 ''created'' = getField o2 ''created''"
      if "\<not> isNullish (getProp raw ''created'')"
      using that by (rule given)
  qed
qed




text \<open>
  Claim C4: whenever \<open>asLoginDump\<close> accepts a document, \<open>parentId\<close> of the result is
  undefined, whatever the document holds under \<open>parentId\<close>.
\<close>

theorem parentId_never_populated:
  "asLoginDump d clock raw = Inr out \<Longrightarrow> getField out ''parentId'' = VUndefined"
proof -
  assume "asLoginDump d clock raw = Inr out"
  from asLoginDump_fields [OF this] obtain fs where out: "out = VObj fs"
    and fs: "cleanFields (loginDumpShape d clock (\<lambda>i. asLoginDump d (\<lambda>p. clock (i # p)))) raw = Inr fs"
    by auto
  have "(''parentId'', \<lambda>raw. Inr VUndefined)
      \<in> set (loginDumpShape d clock (\<lambda>i. asLoginDump d (\<lambda>p. clock (i # p))))"
    by (simp add: loginDumpShape_def)
  from cleanFields_field [OF loginDumpShape_keys fs this] out show ?thesis by simp
qed

theorem parentId_never_populated_witness:
  "getProp (JObj sampleLogin) ''parentId'' = JStr ''cGFyZW50''
   \<and> (\<exists>out. asLoginDump sampleDeps (\<lambda>p. 1000) (JObj sampleLogin) = Inr out
        \<and> getField out ''parentId'' = VUndefined)"
  using parentId_never_populated [OF sampleLogin_clean [of "\<lambda>p. 1000"]]
    sampleLogin_clean [of "\<lambda>p. 1000"]
  by (simp add: sampleLogin_def)

text \<open>
  Claim C5: a document whose \<open>created\<close> is missing or null and which is otherwise valid
  (with a date put under \<open>created\<close> it is accepted, at whatever clock) is accepted,
  \<open>created\<close> of the result is the reading of the clock taken for this login, and every
  field other than \<open>created\<close> and \<open>children\<close> is as for the document with the date;
  when \<open>created\<close> is given, \<open>created\<close> of an accepted document is what \<open>asDate\<close>
  decodes from it.
\<close>

theorem created_defaults_to_clock:
  "(isNullish (getProp (JObj kvs) ''created'')
      \<and> asLoginDump d clock' (JObj ((''created'', JDate (Some t)) # kvs)) = Inr out'
    \<longrightarrow> (\<exists>out. asLoginDump d clock (JObj kvs) = Inr out
          \<and> getField out ''created'' = VDate (clock [])
          \<and> (\<forall>k. k \<noteq> ''created'' \<and> k \<noteq> ''children'' \<longrightarrow> getField out k = getField out' k)))
   \<and> (\<not> isNullish (getProp raw ''created'') \<and> asLoginDump d clock raw = Inr out
    \<longrightarrow> asDate (parseDate d) (getProp raw ''created'') = Inr (getField out ''created''))"
proof (intro conjI impI)
  let ?sh = "loginDumpShape d clock (\<lambda>i. asLoginDump d (\<lambda>p. clock (i # p)))"
  let ?c = "\<lambda>raw. if isNullish raw then Inr (VDate (clock [])) else asDate (parseDate d) raw"
  let ?dated = "JObj ((''created'', JDate (Some t)) # kvs)"
  have mem: "(''created'', ?c) \<in> set ?sh" by (simp add: loginDumpShape_def)
  {
    assume a: "isNullish (getProp (JObj kvs) ''created'') \<and> asLoginDump d clock' ?dated = Inr out'"
    from accepted_at_any_clock [OF conjunct2 [OF a], of clock]
    obtain out'' where o'': "asLoginDump d clock ?dated = Inr out''"
      and same: "\<forall>k. k \<noteq> ''created'' \<and> k \<noteq> ''children'' \<longrightarrow> getField out' k = getField out'' k"
      by blast
    from asLoginDump_fields [OF o''] obtain fs' where out'': "out'' = VObj fs'"
      and fs': "cleanFields ?sh ?dated = Inr fs'"
      by auto
    from a have v0: "?c (getProp (JObj kvs) ''created'') = Inr (VDate (clock []))" by simp
    from cleanFields_other_keys [OF loginDumpShape_keys mem getProp_override fs' v0]
    obtain fs where fs: "cleanFields ?sh (JObj kvs) = Inr fs"
      and cr: "getField (VObj fs) ''created'' = VDate (clock [])"
      and rest: "\<forall>k. k \<noteq> ''created'' \<longrightarrow> getField (VObj fs) k = getField (VObj fs') k"
      by blast
    from fs have "asLoginDump d clock (JObj kvs) = Inr (VObj fs)"
      by (simp add: asLoginDump.simps [of d clock "JObj kvs"] loginDumpBody_def asObject_def)
    with cr rest out'' same
    show "\<exists>out. asLoginDump d clock (JObj kvs) = Inr out
          \<and> getField out ''created'' = VDate (clock [])
          \<and> (\<forall>k. k \<noteq> ''created'' \<and> k \<noteq> ''children'' \<longrightarrow> getField out k = getField out' k)"
      by auto
  }
  {
    assume b: "\<not> isNullish (getProp raw ''created'') \<and> asLoginDump d clock raw = Inr out"
    from asLoginDump_fields [OF conjunct2 [OF b]] obtain fs where out: "out = VObj fs"
      and fs: "cleanFields ?sh raw = Inr fs"
      by auto
    from cleanFields_field [OF loginDumpShape_keys fs mem] b out
    show "asDate (parseDate d) (getProp raw ''created'') = Inr (getField out ''created'')"
      by simp
  }
qed

theorem created_defaults_to_clock_witness:
  "isNullish (getProp (JObj sampleLogin) ''created'')
   \<and> (\<exists>out'. asLoginDump sampleDeps (\<lambda>p. 7) (JObj ((''created'', JDate (Some 5)) # sampleLogin)) = Inr out')
   \<and> (\<exists>out. asLoginDump sampleDeps (\<lambda>p. 1000) (JObj sampleLogin) = Inr out
         \<and> getField out ''created'' = VDate 1000)
   \<and> \<not> isNullish (getProp (JObj ((''created'', JStr ''2020-01-01T00:00:00.000Z'') # sampleLogin)) ''created'')
   \<and> (\<exists>out. asLoginDump sampleDeps (\<lambda>p. 1000) (JObj ((''created'', JStr ''2020-01-01T00:00:00.000Z'') # sampleLogin)) = Inr out
         \<and> getField out ''created'' = VDate 1577836800000)"
proof -
  have n: "isNullish (getProp (JObj sampleLogin) ''created'')"
    by (simp add: sampleLogin_def isNullish_def)
  obtain out' where
    o': "asLoginDump sampleDeps (\<lambda>p. 7) (JObj ((''created'', JDate (Some 5)) # sampleLogin)) = Inr out'"
    by (simp add: sampleLogin_dated_clean)
  have p: "\<not> isNullish (getProp (JObj ((''created'', JStr ''2020-01-01T00:00:00.000Z'') # sampleLogin)) ''created'')"
    by (simp add: isNullish_def)
  obtain out where
    o: "asLoginDump sampleDeps (\<lambda>p. 1000) (JObj ((''created'', JStr ''2020-01-01T00:00:00.000Z'') # sampleLogin)) = Inr out"
    by (simp add: asLoginDump.simps cleaner_defs)
  note t = created_defaults_to_clock [of sampleLogin sampleDeps "\<lambda>p. 7" 5 out' "\<lambda>p. 1000"
      "JObj ((''created'', JStr ''2020-01-01T00:00:00.000Z'') # sampleLogin)" out]
  from t [THEN conjunct1, rule_format, OF conjI [OF n o']]
    t [THEN conjunct2, rule_format, OF conjI [OF p o]] n o' p o
  show ?thesis
    by (auto simp: asDate_def sampleDeps_def)
qed

text \<open>
  Claim C8: \<open>asVoucherDump\<close> accepts a document only if its \<open>status\<close> is one of the
  strings \<open>pending\<close>, \<open>approved\<close>, \<open>rejected\<close>, and the result holds that same string;
  and for a document that is accepted with \<open>status\<close> \<open>pending\<close>, putting any value
  \<open>v\<close> under \<open>status\<close> gives an accepted document exactly when \<open>v\<close> is one of the
  three strings.
\<close>

theorem voucher_status_closed:
  "(asVoucherDump d raw = Inr out
      \<longrightarrow> (\<exists>s. s \<in> {''pending'', ''approved'', ''rejected''}
              \<and> getProp raw ''status'' = JStr s \<and> getField out ''status'' = VStr s))
   \<and> (asVoucherDump d (JObj ((''status'', JStr ''pending'') # kvs)) = Inr out'
      \<longrightarrow> (\<exists>out. asVoucherDump d (JObj ((''status'', v) # kvs)) = Inr out)
          = (v \<in> {JStr ''pending'', JStr ''approved'', JStr ''rejected''}))"
proof (intro conjI impI)
  let ?c = "asValue [''pending'', ''approved'', ''rejected'']"
  have mem: "(''status'', ?c) \<in> set (voucherDumpShape d)"
    by (simp add: voucherDumpShape_def)
  have status: "\<exists>s. s \<in> {''pending'', ''approved'', ''rejected''}
      \<and> getProp r ''status'' = JStr s \<and> getField o' ''status'' = VStr s"
    if "asVoucherDump d r = Inr o'" for r o'
  proof -
    from asVoucherDump_fields [OF that] obtain fs where out: "o' = VObj fs"
      and fs: "cleanFields (voucherDumpShape d) r = Inr fs"
      by auto
    from cleanFields_field [OF voucherDumpShape_keys fs mem] out show ?thesis
      by (auto simp: asValue_accepts)
  qed
  {
    assume "asVoucherDump d raw = Inr out"
    then show "\<exists>s. s \<in> {''pending'', ''approved'', ''rejected''}
      \<and> getProp raw ''status'' = JStr s \<and> getField out ''status'' = VStr s"
      by (rule status)
  }
  {
    assume a: "asVoucherDump d (JObj ((''status'', JStr ''pending'') # kvs)) = Inr out'"
    from asVoucherDump_fields [OF a] obtain fs' where
      fs': "cleanFields (voucherDumpShape d) (JObj ((''status'', JStr ''pending'') # kvs)) = Inr fs'"
      by auto
    have same: "getProp (JObj ((''status'', v) # kvs)) k
        = getProp (JObj ((''status'', JStr ''pending'') # kvs)) k" if "k \<noteq> ''status''" for k
      using that by simp
    show "(\<exists>out. asVoucherDump d (JObj ((''status'', v) # kvs)) = Inr out)
          = (v \<in> {JStr ''pending'', JStr ''approved'', JStr ''rejected''})"
    proof
      assume "\<exists>out. asVoucherDump d (JObj ((''status'', v) # kvs)) = Inr out"
      then obtain o' where "asVoucherDump d (JObj ((''status'', v) # kvs)) = Inr o'" ..
      from status [OF this] show "v \<in> {JStr ''pending'', JStr ''approved'', JStr ''rejected''}"
        by auto
    next
      assume "v \<in> {JStr ''pending'', JStr ''approved'', JStr ''rejected''}"
      then obtain s where "?c (getProp (JObj ((''status'', v) # kvs)) ''status'') = Inr (VStr s)"
        by (auto simp: asValue_def)
      from cleanFields_other_keys [OF voucherDumpShape_keys mem same fs' this]
      obtain fs where "cleanFields (voucherDumpShape d) (JObj ((''status'', v) # kvs)) = Inr fs"
        by blast
      then show "\<exists>out. asVoucherDump d (JObj ((''status'', v) # kvs)) = Inr out"
        by (simp add: asVoucherDump_def asObject_def)
    qed
  }
qed

theorem voucher_status_closed_witness:
  "(\<exists>out. asVoucherDump sampleDeps (JObj ((''status'', JStr ''pending'') # sampleVoucher)) = Inr out)
   \<and> (\<exists>out. asVoucherDump sampleDeps (JObj ((''status'', JStr ''approved'') # sampleVoucher)) = Inr out
         \<and> getField out ''status'' = VStr ''approved'')
   \<and> (\<nexists>out. asVoucherDump sampleDeps (JObj ((''status'', JStr ''cancelled'') # sampleVoucher)) = Inr out)"
proof -
  have p: "asVoucherDump sampleDeps (JObj ((''status'', JStr ''pending'') # sampleVoucher))
      = Inr (VObj [(''loginId'', VBytes [97, 87, 81, 61]),
                     (''voucherAuth'', VBytes [89, 88, 86, 48, 97, 65, 61, 61]),
                     (''voucherId'', VStr ''v1''), (''created'', VDate 1577836800000),
                     (''activates'', VDate 1577836800000), (''status'', VStr ''pending''),
                     (''ip'', VStr ''10.0.0.1''), (''ipDescription'', VStr ''lan'')])"
    by (simp add: sampleVoucher_clean)
  note t = voucher_status_closed [of sampleDeps "JObj ((''status'', JStr ''approved'') # sampleVoucher)" _ sampleVoucher]
  from t [THEN conjunct2, rule_format, OF p, of "JStr ''cancelled''"]
    t [THEN conjunct2, rule_format, OF p, of "JStr ''approved''"]
    t [THEN conjunct1, rule_format] p
  show ?thesis by (auto simp: sampleVoucher_clean)
qed

section \<open>Properties of the error constructors\<close>

lemma otpExtract_fields:
  "name (otpExtract f reply this) = name this"
  "type (otpExtract f reply this) = type this"
  "loginId (otpExtract f reply this) = (case login_id reply of None \<Rightarrow> loginId this | Some v \<Rightarrow> Some v)"
  "resetToken (otpExtract f reply this) = (case otp_reset_auth reply of None \<Rightarrow> resetToken this | Some v \<Rightarrow> Some v)"
  "reason (otpExtract f reply this) = (if reply_reason reply = Some ''ip'' then ''ip'' else reason this)"
  "resetDate (otpExtract f reply this) = (case otp_timeout_date reply of None \<Rightarrow> resetDate this | Some v \<Rightarrow> Some v)"
  "voucherActivates (otpExtract f reply this) = (case voucher_activates reply of None \<Rightarrow> voucherActivates this | Some v \<Rightarrow> Some v)"
  "voucherAuth (otpExtract f reply this) = (case voucher_auth reply of None \<Rightarrow> voucherAuth this | Some v \<Rightarrow> Some (f v))"
  "voucherId (otpExtract f reply this) = (case voucher_id reply of None \<Rightarrow> voucherId this | Some v \<Rightarrow> Some v)"
  by (simp_all add: otpExtract_def Let_def split: option.split)

lemma sampleOtpPayload_ok:
  "sampleOtpPayload (JObj [(''login_id'', JStr ''abc''), (''reason'', JStr ''ip'')]) =
    Inr \<lparr>login_id = Some ''abc'', otp_reset_auth = None, otp_timeout_date = None,
         reply_reason = Some ''ip'', voucher_activates = None, voucher_auth = None,
         voucher_id = None\<rparr>"
  by (simp add: sampleOtpPayload_def asObject_def asOptional_def asString_def isNullish_def)

lemma sampleOtpPayload_bad:
  "sampleOtpPayload (JStr ''Internal Server Error'') = Inl (TypeError ''Expected an object'')"
  by (simp add: sampleOtpPayload_def asObject_def)

lemma samplePasswordPayload_ok:
  "samplePasswordPayload (JObj [(''wait_seconds'', JNum 30)]) = Inr \<lparr>wait_seconds = Some 30\<rparr>"
  by (simp add: samplePasswordPayload_def asObject_def asOptional_def asNumber_def isNullish_def)

lemma samplePasswordPayload_bad:
  "samplePasswordPayload JUndefined = Inl (TypeError ''Expected an object'')"
  by (simp add: samplePasswordPayload_def asObject_def)

text \<open>
  Claim C9: whatever the payload \<open>raw\<close> and whatever the payload cleaners do with it, the
  constructors return an error whose \<open>name\<close> (and \<open>type\<close>) is \<open>OtpError\<close>, respectively
  \<open>PasswordError\<close>. When the payload cleans, the fields of the reply are on the error
  (\<open>reason\<close> is \<open>ip\<close> when the reply says so, and \<open>voucherAuth\<close> is the base64 text of
  the reply's bytes); when cleaning fails the optional fields are unset and \<open>reason\<close>
  keeps the \<open>otp\<close> it is given before the \<^verbatim>\<open>try\<close>.
\<close>

theorem error_constructors_tolerate_payload:
  "name (OtpError c f raw msg) = ''OtpError'' \<and> type (OtpError c f raw msg) = ''OtpError''
   \<and> name (PasswordError c' raw msg) = ''PasswordError''
   \<and> type (PasswordError c' raw msg) = ''PasswordError''
   \<and> (c raw = Inr reply \<longrightarrow>
        loginId (OtpError c f raw msg) = login_id reply
        \<and> resetToken (OtpError c f raw msg) = otp_reset_auth reply
        \<and> resetDate (OtpError c f raw msg) = otp_timeout_date reply
        \<and> reason (OtpError c f raw msg) = (if reply_reason reply = Some ''ip'' then ''ip'' else ''otp'')
        \<and> voucherActivates (OtpError c f raw msg) = voucher_activates reply
        \<and> voucherAuth (OtpError c f raw msg) = map_option f (voucher_auth reply)
        \<and> voucherId (OtpError c f raw msg) = voucher_id reply)
   \<and> (c raw = Inl e \<longrightarrow>
        loginId (OtpError c f raw msg) = None
        \<and> resetToken (OtpError c f raw msg) = None
        \<and> resetDate (OtpError c f raw msg) = None
        \<and> reason (OtpError c f raw msg) = ''otp''
        \<and> voucherActivates (OtpError c f raw msg) = None
        \<and> voucherAuth (OtpError c f raw msg) = None
        \<and> voucherId (OtpError c f raw msg) = None)
   \<and> (c' raw = Inr clean \<longrightarrow> wait (PasswordError c' raw msg) = wait_seconds clean)
   \<and> (c' raw = Inl e' \<longrightarrow> wait (PasswordError c' raw msg) = None)"
proof -
  have names: "name (OtpError c f raw msg) = ''OtpError''" "type (OtpError c f raw msg) = ''OtpError''"
    "name (PasswordError c' raw msg) = ''PasswordError''"
    "type (PasswordError c' raw msg) = ''PasswordError''"
    by (simp_all add: OtpError_def PasswordError_def otpExtract_fields Let_def split: sum.split)
  have ok: "loginId (OtpError c f raw msg) = login_id reply
        \<and> resetToken (OtpError c f raw msg) = otp_reset_auth reply
        \<and> resetDate (OtpError c f raw msg) = otp_timeout_date reply
        \<and> reason (OtpError c f raw msg) = (if reply_reason reply = Some ''ip'' then ''ip'' else ''otp'')
        \<and> voucherActivates (OtpError c f raw msg) = voucher_activates reply
        \<and> voucherAuth (OtpError c f raw msg) = map_option f (voucher_auth reply)
        \<and> voucherId (OtpError c f raw msg) = voucher_id reply" if "c raw = Inr reply"
    using that by (simp add: OtpError_def otpExtract_fields Let_def split: option.split)
  have bad: "loginId (OtpError c f raw msg) = None
        \<and> resetToken (OtpError c f raw msg) = None
        \<and> resetDate (OtpError c f raw msg) = None
        \<and> reason (OtpError c f raw msg) = ''otp''
        \<and> voucherActivates (OtpError c f raw msg) = None
        \<and> voucherAuth (OtpError c f raw msg) = None
        \<and> voucherId (OtpError c f raw msg) = None" if "c raw = Inl e"
    using that by (simp add: OtpError_def Let_def)
  have w1: "wait (PasswordError c' raw msg) = wait_seconds clean" if "c' raw = Inr clean"
    using that by (simp add: PasswordError_def Let_def)
  have w2: "wait (PasswordError c' raw msg) = None" if "c' raw = Inl e'"
    using that by (simp add: PasswordError_def Let_def)
  from names ok bad w1 w2 show ?thesis by blast
qed

theorem error_constructors_witness:
  "(\<exists>reply. sampleOtpPayload (JObj [(''login_id'', JStr ''abc''), (''reason'', JStr ''ip'')]) = Inr reply)
   \<and> loginId (OtpError sampleOtpPayload (map char_of) (JObj [(''login_id'', JStr ''abc''), (''reason'', JStr ''ip'')]) None) = Some ''abc''
   \<and> reason (OtpError sampleOtpPayload (map char_of) (JObj [(''login_id'', JStr ''abc''), (''reason'', JStr ''ip'')]) None) = ''ip''
   \<and> (\<exists>e. sampleOtpPayload (JStr ''Internal Server Error'') = Inl e)
   \<and> name (OtpError sampleOtpPayload (map char_of) (JStr ''Internal Server Error'') None) = ''OtpError''
   \<and> loginId (OtpError sampleOtpPayload (map char_of) (JStr ''Internal Server Error'') None) = None
   \<and> (\<exists>clean. samplePasswordPayload (JObj [(''wait_seconds'', JNum 30)]) = Inr clean)
   \<and> wait (PasswordError samplePasswordPayload (JObj [(''wait_seconds'', JNum 30)]) None) = Some 30
   \<and> (\<exists>e. samplePasswordPayload JUndefined = Inl e)
   \<and> name (PasswordError samplePasswordPayload JUndefined None) = ''PasswordError''
   \<and> wait (PasswordError samplePasswordPayload JUndefined None) = None"
proof -
  note t1 = error_constructors_tolerate_payload
    [of sampleOtpPayload "map char_of" "JObj [(''login_id'', JStr ''abc''), (''reason'', JStr ''ip'')]" None
      samplePasswordPayload, THEN conjunct2, THEN conjunct2, THEN conjunct2, THEN conjunct2,
      THEN conjunct1, rule_format, OF sampleOtpPayload_ok]
  note t2 = error_constructors_tolerate_payload
    [of sampleOtpPayload "map char_of" "JStr ''Internal Server Error''" None samplePasswordPayload]
  note t2a = t2 [THEN conjunct1]
  note t2b = t2 [THEN conjunct2, THEN conjunct2, THEN conjunct2, THEN conjunct2,
      THEN conjunct2, THEN conjunct1, rule_format, OF sampleOtpPayload_bad]
  note t3 = error_constructors_tolerate_payload
    [of sampleOtpPayload "map char_of" "JObj [(''wait_seconds'', JNum 30)]" None samplePasswordPayload,
      THEN conjunct2, THEN conjunct2, THEN conjunct2, THEN conjunct2,
      THEN conjunct2, THEN conjunct2, THEN conjunct1, rule_format, OF samplePasswordPayload_ok]
  note t4 = error_constructors_tolerate_payload
    [of sampleOtpPayload "map char_of" JUndefined None samplePasswordPayload]
  note t4a = t4 [THEN conjunct2, THEN conjunct2, THEN conjunct1]
  note t4b = t4 [THEN conjunct2, THEN conjunct2, THEN conjunct2, THEN conjunct2,
      THEN conjunct2, THEN conjunct2, THEN conjunct2, rule_format, OF samplePasswordPayload_bad]
  from t1 t2a t2b t3 t4a t4b show ?thesis
    by (simp add: sampleOtpPayload_ok sampleOtpPayload_bad samplePasswordPayload_ok
        samplePasswordPayload_bad)
qed

section \<open>Properties of the root context\<close>

lemma endsWith_iff: "endsWith s suffix = (\<exists>p. s = p @ suffix)"
proof
  assume "endsWith s suffix"
  then have "s = take (length s - length suffix) s @ suffix"
    by (metis append_take_drop_id endsWith_def)
  then show "\<exists>p. s = p @ suffix" ..
next
  assume "\<exists>p. s = p @ suffix"
  then show "endsWith s suffix" by (auto simp: endsWith_def)
qed

lemma default_server_ok: "endsWith ''https://login.edge.app'' ''.edge.app''"
  by (simp add: endsWith_def)

lemma makeContext_fails_iff:
  "(\<exists>e. makeContext rest opts = ([], Inl e)) = (\<exists>e. contextSettings opts = Inl e)"
  by (cases "contextSettings opts") (simp_all add: makeContext_def)

lemma contextSettings_fails_iff:
  "(\<exists>e. contextSettings opts = Inl e)
    = (apiKey opts = None
        \<or> (\<not> endsWith (case authServer opts of None \<Rightarrow> ''https://login.edge.app'' | Some s \<Rightarrow> s) ''.edge.app''
           \<and> \<not> endsWith (case authServer opts of None \<Rightarrow> ''https://login.edge.app'' | Some s \<Rightarrow> s) ''.edgetest.app''))"
  by (cases "apiKey opts") (simp_all add: contextSettings_def Let_def)

text \<open>
  Claim C10: \<open>makeContext\<close> fails with no effect at all (no store, no workers) exactly
  when \<open>apiKey\<close> is null or undefined or the login server, after the default has been
  filled in, ends with neither \<open>.edge.app\<close> nor \<open>.edgetest.app\<close>; with the default
  server and an API key the checks pass and the store is created.
\<close>

theorem makeContext_checks_first:
  "(\<exists>e. makeContext rest opts = ([], Inl e))
     = (apiKey opts = None
        \<or> (\<not> endsWith (case authServer opts of None \<Rightarrow> ''https://login.edge.app'' | Some s \<Rightarrow> s) ''.edge.app''
           \<and> \<not> endsWith (case authServer opts of None \<Rightarrow> ''https://login.edge.app'' | Some s \<Rightarrow> s) ''.edgetest.app''))
   \<and> (authServer opts = None \<and> apiKey opts = Some key
      \<longrightarrow> (\<exists>effects result. makeContext rest opts = (CreateStore # effects, result)))"
proof (intro conjI impI)
  show "(\<exists>e. makeContext rest opts = ([], Inl e))
     = (apiKey opts = None
        \<or> (\<not> endsWith (case authServer opts of None \<Rightarrow> ''https://login.edge.app'' | Some s \<Rightarrow> s) ''.edge.app''
           \<and> \<not> endsWith (case authServer opts of None \<Rightarrow> ''https://login.edge.app'' | Some s \<Rightarrow> s) ''.edgetest.app''))"
    unfolding makeContext_fails_iff by (rule contextSettings_fails_iff)
  assume "authServer opts = None \<and> apiKey opts = Some key"
  then have "\<exists>settings. contextSettings opts = Inr settings"
    by (simp add: contextSettings_def default_server_ok)
  then show "\<exists>effects result. makeContext rest opts = (CreateStore # effects, result)"
    by (auto simp: makeContext_def)
qed

theorem makeContext_checks_first_witness:
  "makeContext (\<lambda>s. ([DispatchInit s], Inr ())) \<lparr>apiKey = None, appId = None, authServer = None, deviceDescription = None, hideKeys = None\<rparr>
     = ([], Inl (Error ''No API key provided''))
   \<and> makeContext (\<lambda>s. ([DispatchInit s], Inr ())) \<lparr>apiKey = Some ''key'', appId = None, authServer = Some ''https://login.example.com'', deviceDescription = None, hideKeys = None\<rparr>
     = ([], Inl (Error ''Invalid login server passed to makeContext: https://login.example.com''))
   \<and> (\<exists>effects result. makeContext (\<lambda>s. ([DispatchInit s], Inr ())) \<lparr>apiKey = Some ''key'', appId = None, authServer = None, deviceDescription = None, hideKeys = None\<rparr>
     = (CreateStore # effects, result))"
  using makeContext_checks_first [of "\<lambda>s. ([DispatchInit s], Inr ())" "\<lparr>apiKey = Some ''key'', appId = None, authServer = None, deviceDescription = None, hideKeys = None\<rparr>" "''key''"]
  by (simp add: makeContext_def contextSettings_def endsWith_def)

text \<open>
  Claim C6 says that the watcher calls \<open>update(api)\<close> if and only if one of the three
  watched fields differs from the recorded value. It does not when no API object has been
  put out yet: after a first evaluation, \<open>localUsers\<close> changes, and the second
  evaluation calls nothing.
\<close>

theorem watcher_skips_when_api_missing:
  "watchedChanged
     \<lparr>localUsers = 2 :: nat, paused = False, logSettings = 1 :: nat, otherState = (),
      api = None :: nat option\<rparr>
     (fst (watcher \<lparr>localUsers = 1 :: nat, paused = False, logSettings = 1 :: nat,
                    otherState = (), api = None :: nat option\<rparr> initWatcher))
   \<and> snd (watcher
        \<lparr>localUsers = 2 :: nat, paused = False, logSettings = 1 :: nat, otherState = (),
         api = None :: nat option\<rparr>
        (fst (watcher \<lparr>localUsers = 1 :: nat, paused = False, logSettings = 1 :: nat,
                       otherState = (), api = None :: nat option\<rparr> initWatcher))) = []"
  by (simp add: watcher_def watchedChanged_def initWatcher_def)

text \<open>
  Claim C6 as amended: the watcher calls \<open>update(api)\<close>, once, if and only if one of the
  three watched fields differs from the recorded value and an API object has been put out;
  and an evaluation on props that differ from those of the evaluation before only outside
  the three watched fields calls nothing and leaves the recorded values as they are.
\<close>

theorem watcher_notifies_iff:
  "(snd (watcher props w) \<noteq> []) = (watchedChanged props w \<and> api props \<noteq> None)
   \<and> snd (watcher props w) = (if watchedChanged props w \<and> api props \<noteq> None then [the (api props)] else [])
   \<and> (localUsers props' = localUsers props \<and> paused props' = paused props
        \<and> logSettings props' = logSettings props
      \<longrightarrow> watcher props' (fst (watcher props w)) = (fst (watcher props w), []))"
  by (cases "api props") (simp_all add: watcher_def watchedChanged_def)

theorem watcher_notifies_iff_witness:
  "watcher \<lparr>localUsers = 1 :: nat, paused = False, logSettings = 1 :: nat, otherState = 0 :: nat, api = Some (7 :: nat)\<rparr> initWatcher
     = (\<lparr>lastLocalUsers = Some 1, lastPaused = Some False, lastLogSettings = Some 1\<rparr>, [7])
   \<and> watcher \<lparr>localUsers = 1 :: nat, paused = False, logSettings = 1 :: nat, otherState = 5 :: nat, api = Some (7 :: nat)\<rparr>
        \<lparr>lastLocalUsers = Some 1, lastPaused = Some False, lastLogSettings = Some 1\<rparr>
     = (\<lparr>lastLocalUsers = Some 1, lastPaused = Some False, lastLogSettings = Some 1\<rparr>, [])"
  using watcher_notifies_iff [of "\<lparr>localUsers = 1 :: nat, paused = False, logSettings = 1 :: nat, otherState = 0 :: nat, api = Some (7 :: nat)\<rparr>" initWatcher
      "\<lparr>localUsers = 1 :: nat, paused = False, logSettings = 1 :: nat, otherState = 5 :: nat, api = Some (7 :: nat)\<rparr>"]
  by (simp add: watcher_def watchedChanged_def initWatcher_def)

section \<open>Teardown of the workers\<close>




end
